theory Spec2Isabelle
  imports Complex_Main
begin

section \<open>JavaScript strings\<close>

text \<open>
  A string is the list of its code units. The model covers code units below 256
  (the Latin-1 range), which is what \<^typ>\<open>char\<close> holds; the helper functions below
  are the \<^verbatim>\<open>String.prototype\<close> methods the sources call, on that range.
\<close>

definition startsWith :: "string \<Rightarrow> string \<Rightarrow> bool" where
  "startsWith s p = (take (length p) s = p)"

definition endsWith :: "string \<Rightarrow> string \<Rightarrow> bool" where
  "endsWith s p = (length p \<le> length s \<and> drop (length s - length p) s = p)"

text \<open>\<^verbatim>\<open>s.includes(p)\<close>: \<open>p\<close> occurs in \<open>s\<close> as a contiguous substring.\<close>

fun js_includes :: "string \<Rightarrow> string \<Rightarrow> bool" where
  "js_includes [] p = (p = [])"
| "js_includes (c # cs) p = (startsWith (c # cs) p \<or> js_includes cs p)"

text \<open>\<^verbatim>\<open>s.replace(p, r)\<close> with a string pattern replaces the first occurrence only.\<close>

fun replace_first :: "string \<Rightarrow> string \<Rightarrow> string \<Rightarrow> string" where
  "replace_first p r [] = (if p = [] then r else [])"
| "replace_first p r (c # cs) =
     (if startsWith (c # cs) p then r @ drop (length p) (c # cs)
      else c # replace_first p r cs)"

text \<open>\<^verbatim>\<open>s.split(d)\<close> for a one-character separator; the result is never empty.\<close>

fun js_split :: "char \<Rightarrow> string \<Rightarrow> string list" where
  "js_split d [] = [[]]"
| "js_split d (c # cs) =
     (if c = d then [] # js_split d cs
      else (case js_split d cs of
              [] \<Rightarrow> [[c]]
            | w # ws \<Rightarrow> (c # w) # ws))"

fun join :: "string \<Rightarrow> string list \<Rightarrow> string" where
  "join sep [] = []"
| "join sep [w] = w"
| "join sep (w # v # ws) = w @ sep @ join sep (v # ws)"

text \<open>
  \<^verbatim>\<open>toLowerCase\<close>: the capital letters of the Latin-1 range are A to Z and
  U+00C0 to U+00DE without the multiplication sign U+00D7; each is 32 below its
  small letter.
\<close>

definition lower_char :: "char \<Rightarrow> char" where
  "lower_char c =
     (let n = (of_char c :: nat)
      in if (65 \<le> n \<and> n \<le> 90) \<or> (192 \<le> n \<and> n \<le> 222 \<and> n \<noteq> 215)
         then char_of (n + 32) else c)"

definition toLowerCase :: "string \<Rightarrow> string" where
  "toLowerCase s = map lower_char s"

text \<open>
  \<^verbatim>\<open>trim\<close> removes white space and line terminators from both ends: in the
  Latin-1 range these are U+0009 to U+000D, the space and the no-break space U+00A0.
\<close>

definition is_space :: "char \<Rightarrow> bool" where
  "is_space c =
     (let n = (of_char c :: nat) in (9 \<le> n \<and> n \<le> 13) \<or> n = 32 \<or> n = 160)"

definition trim :: "string \<Rightarrow> string" where
  "trim s = rev (dropWhile is_space (rev (dropWhile is_space s)))"

text \<open>\<^verbatim>\<open>xs.findIndex(p)\<close>, with \<open>None\<close> for the source's \<open>-1\<close>.\<close>

fun findIndex :: "('a \<Rightarrow> bool) \<Rightarrow> 'a list \<Rightarrow> nat option" where
  "findIndex p [] = None"
| "findIndex p (x # xs) =
     (if p x then Some 0 else map_option Suc (findIndex p xs))"


section \<open>The server's cache (server/server.js)\<close>

text \<open>
  The cache is a \<^verbatim>\<open>NodeCache\<close>: a table from string keys to values. It is modelled
  as the list of its entries, oldest first, with one entry for each key. The expiry
  of entries after the time to live belongs to the library and is not modelled: a
  table here is the table as one call finds it.
\<close>

type_synonym 'v node_cache = "(string \<times> 'v) list"

definition cache_get :: "'v node_cache \<Rightarrow> string \<Rightarrow> 'v option" where
  "cache_get c k = map_of c k"

definition cache_keys :: "'v node_cache \<Rightarrow> string list" where
  "cache_keys c = map fst c"

definition cache_del :: "string \<Rightarrow> 'v node_cache \<Rightarrow> 'v node_cache" where
  "cache_del k c = filter (\<lambda>e. fst e \<noteq> k) c"

definition cache_set :: "string \<Rightarrow> 'v \<Rightarrow> 'v node_cache \<Rightarrow> 'v node_cache" where
  "cache_set k v c = cache_del k c @ [(k, v)]"

definition cache_flushAll :: "'v node_cache \<Rightarrow> 'v node_cache" where
  "cache_flushAll c = []"

definition cacheGet :: "'v node_cache \<Rightarrow> string \<Rightarrow> 'v option" where
  "cacheGet c k = cache_get c k"

definition cacheSet :: "string \<Rightarrow> 'v \<Rightarrow> 'v node_cache \<Rightarrow> 'v node_cache" where
  "cacheSet k v c = cache_set k v c"

text \<open>
  \<^verbatim>\<open>cacheDel = (pref='') => pref ? cache.keys().forEach(k => k.startsWith(pref)
  && cache.del(k)) : cache.flushAll()\<close>. The argument is \<open>None\<close> when the caller
  passes none, and the default \<^verbatim>\<open>''\<close> takes its place; the empty string is falsy.
  The loop runs over the keys as they were when it started.
\<close>

definition cacheDel :: "string option \<Rightarrow> 'v node_cache \<Rightarrow> 'v node_cache" where
  "cacheDel arg c =
     (let pref = (case arg of None \<Rightarrow> [] | Some p \<Rightarrow> p)
      in if pref \<noteq> []
         then fold (\<lambda>k c'. if startsWith k pref then cache_del k c' else c') (cache_keys c) c
         else cache_flushAll c)"


section \<open>Progress of a folder (src/contexts/FileContext.tsx)\<close>

text \<open>
  The records of \<^verbatim>\<open>src/types\<close>. A field the server's listing does not send is
  \<^verbatim>\<open>undefined\<close> on the client: \<open>None\<close> for the optional ones and for
  \<open>progress\<close> and \<open>folderId\<close>, \<open>False\<close> for the flags \<open>edited\<close> and \<open>approved\<close>, which the
  code only ever tests for truth. The content of a file is of a type \<open>'j\<close> of
  JSON values. Numbers are IEEE doubles in the source and reals here, so a quotient
  is exact in the model.
\<close>

datatype status = Pending | InProgress | Completed

record markdown_file =
  md_id :: string
  md_name :: string
  matchingFolderId :: "string option"
  md_status :: "status option"

record 'j json_file =
  jf_id :: string
  jf_name :: string
  jf_content :: "'j option"
  folderId :: "string option"
  edited :: bool
  approved :: bool

record 'j json_folder =
  fo_id :: string
  fo_name :: string
  fo_files :: "'j json_file list"
  matchingMarkdownId :: "string option"
  progress :: "real option"






text \<open>
  \<^verbatim>\<open>determineFileStatuses\<close>. The result folders are the entries of the server's
  \<^verbatim>\<open>/api/result-files\<close>. The folder that \<^verbatim>\<open>find\<close> returns is an element of
  \<^verbatim>\<open>jsonFolders\<close>, and \<^verbatim>\<open>folder.progress = progress\<close> writes into it: the
  model takes the position of that element and returns the list with the element
  updated, next to the new markdown files.
\<close>

record result_file =
  rf_id :: string
  rf_name :: string

record result_folder =
  rfo_folderId :: string
  folderName :: string
  rfo_files :: "result_file list"

text \<open>\<^verbatim>\<open>name.replace(/\.md$/, '')\<close>\<close>

definition strip_md_suffix :: "string \<Rightarrow> string" where
  "strip_md_suffix name =
     (if endsWith name ''.md'' then take (length name - 3) name else name)"

definition status_step ::
  "result_folder list \<Rightarrow> markdown_file \<Rightarrow> 'j json_folder list
     \<Rightarrow> markdown_file \<times> 'j json_folder list" where
  "status_step resultFolders md folders =
     (case findIndex (\<lambda>f. Some (fo_id f) = matchingFolderId md) folders of
        None \<Rightarrow> (md\<lparr>md_status := Some Pending\<rparr>, folders)
      | Some i \<Rightarrow>
          (let folder = folders ! i;
               mdBase = strip_md_suffix (md_name md)
           in case find (\<lambda>r. js_includes mdBase (folderName r)) resultFolders of
                None \<Rightarrow>
                  (md\<lparr>md_status :=
                        Some (if list_ex edited (fo_files folder) then InProgress else Pending)\<rparr>,
                   folders)
              | Some resultFolder \<Rightarrow>
                  (let jsonNames = map jf_name (fo_files folder);
                       resultNames = map rf_name (rfo_files resultFolder);
                       completed = length (filter (\<lambda>n. n \<in> set resultNames) jsonNames);
                       progress' = (if length jsonNames \<noteq> 0
                                    then (real completed / real (length jsonNames)) * 100
                                    else 0)
                   in (md\<lparr>md_status :=
                            Some (if completed = 0 then Pending
                                  else if completed < length jsonNames then InProgress
                                  else Completed)\<rparr>,
                       folders[i := folder\<lparr>progress := Some progress'\<rparr>]))))"

fun determineFileStatuses ::
  "markdown_file list \<Rightarrow> 'j json_folder list \<Rightarrow> result_folder list
     \<Rightarrow> markdown_file list \<times> 'j json_folder list" where
  "determineFileStatuses [] folders resultFolders = ([], folders)"
| "determineFileStatuses (md # mds) folders resultFolders =
     (let (md', folders') = status_step resultFolders md folders;
          (mds', folders'') = determineFileStatuses mds folders' resultFolders
      in (md' # mds', folders''))"


section \<open>Matching files with folders (src/services/driveService.ts)\<close>

text \<open>
  \<^verbatim>\<open>mdFile.name.replace('.md', '').split('_').slice(0, 3).join('_')\<close> and the same
  for a folder without the \<^verbatim>\<open>replace\<close>.
\<close>

definition mdPrefix :: "string \<Rightarrow> string" where
  "mdPrefix name = join ''_'' (take 3 (js_split CHR ''_'' (replace_first ''.md'' [] name)))"

definition folderPrefix :: "string \<Rightarrow> string" where
  "folderPrefix name = join ''_'' (take 3 (js_split CHR ''_'' name))"

definition prefix_match :: "markdown_file \<Rightarrow> 'j json_folder \<Rightarrow> bool" where
  "prefix_match mdFile folder =
     (toLowerCase (folderPrefix (fo_name folder)) = toLowerCase (mdPrefix (md_name mdFile)))"

text \<open>
  The body of the \<^verbatim>\<open>forEach\<close>: it writes \<^verbatim>\<open>matchingFolderId\<close> into the markdown
  file and \<^verbatim>\<open>matchingMarkdownId\<close> into the first folder that has the id of the
  folder found.
\<close>

definition match_step ::
  "markdown_file \<Rightarrow> 'j json_folder list \<Rightarrow> markdown_file \<times> 'j json_folder list" where
  "match_step mdFile folders =
     (case find (prefix_match mdFile) folders of
        None \<Rightarrow> (mdFile, folders)
      | Some matchingFolder \<Rightarrow>
          (mdFile\<lparr>matchingFolderId := Some (fo_id matchingFolder)\<rparr>,
           (case findIndex (\<lambda>f. fo_id f = fo_id matchingFolder) folders of
              None \<Rightarrow> folders
            | Some folderIndex \<Rightarrow>
                folders[folderIndex :=
                  (folders ! folderIndex)\<lparr>matchingMarkdownId := Some (md_id mdFile)\<rparr>])))"

fun matchFilesWithFolders ::
  "markdown_file list \<Rightarrow> 'j json_folder list \<Rightarrow> markdown_file list \<times> 'j json_folder list" where
  "matchFilesWithFolders [] folders = ([], folders)"
| "matchFilesWithFolders (mdFile # mds) folders =
     (let (mdFile', folders') = match_step mdFile folders;
          (mds', folders'') = matchFilesWithFolders mds folders'
      in (mdFile' # mds', folders''))"


text \<open>
  Notions for the statements about the matching. \<open>target_index mdFile folders\<close> is the
  position of the folder into which the step for \<open>mdFile\<close> writes, if any.
  \<open>assign\<close> and \<open>record_match\<close> are the two effects of one step, on the markdown
  file and on the folders, with the search done in a list \<open>fs0\<close> of folders of the same
  names and ids; \<open>shape\<close> is what the search depends on.
\<close>

definition target_index :: "markdown_file \<Rightarrow> 'j json_folder list \<Rightarrow> nat option" where
  "target_index mdFile folders =
     (case find (prefix_match mdFile) folders of
        None \<Rightarrow> None
      | Some matchingFolder \<Rightarrow> findIndex (\<lambda>f. fo_id f = fo_id matchingFolder) folders)"

definition shape :: "'j json_folder list \<Rightarrow> (string \<times> string) list" where
  "shape fs = map (\<lambda>f. (fo_name f, fo_id f)) fs"

definition assign :: "'j json_folder list \<Rightarrow> markdown_file \<Rightarrow> markdown_file" where
  "assign fs0 md =
     (case find (prefix_match md) fs0 of
        None \<Rightarrow> md
      | Some f \<Rightarrow> md\<lparr>matchingFolderId := Some (fo_id f)\<rparr>)"

definition record_match :: "'j json_folder list \<Rightarrow> markdown_file \<Rightarrow> 'j json_folder list \<Rightarrow> 'j json_folder list" where
  "record_match fs0 md fs =
     (case target_index md fs0 of
        None \<Rightarrow> fs
      | Some j \<Rightarrow> fs[j := (fs ! j)\<lparr>matchingMarkdownId := Some (md_id md)\<rparr>])"


section \<open>Listing the store page by page (server/server.js)\<close>

text \<open>
  \<^verbatim>\<open>drive.files.list\<close> answers one request with a page: the files of the page,
  which may be missing, and the token of the next page, which may be missing. A request
  that throws is \<open>Inl\<close>. For a fixed query the store is a function from the token of
  the request (\<open>None\<close> for the \<^verbatim>\<open>null\<close> of the first request) to the answer.
\<close>

datatype drive_error = DriveError

record 'f page =
  page_files :: "'f list option"
  nextPageToken :: "string option"

text \<open>The test of \<^verbatim>\<open>while (pageToken)\<close>: a string is truthy when it is not empty.\<close>

definition truthy :: "string option \<Rightarrow> bool" where
  "truthy t = (case t of None \<Rightarrow> False | Some s \<Rightarrow> s \<noteq> [])"

text \<open>
  The \<^verbatim>\<open>do ... while\<close> loop of \<^verbatim>\<open>listAll\<close>. Nothing bounds the number of pages,
  so the loop is a partial function: \<open>None\<close> is a loop that never ends. Next to the
  result the model returns the tokens of the requests made, in order.
\<close>

partial_function (option) listAll_loop ::
  "(string option \<Rightarrow> drive_error + 'f page) \<Rightarrow> 'f list \<Rightarrow> string option
     \<Rightarrow> string option list \<Rightarrow> ((drive_error + 'f list) \<times> string option list) option" where
  "listAll_loop list out pageToken requests =
     (case list pageToken of
        Inl e \<Rightarrow> Some (Inl e, requests @ [pageToken])
      | Inr data \<Rightarrow>
          (let out' = (case page_files data of
                         None \<Rightarrow> out
                       | Some fs \<Rightarrow> if length fs \<noteq> 0 then out @ fs else out)
           in if truthy (nextPageToken data)
              then listAll_loop list out' (nextPageToken data) (requests @ [pageToken])
              else Some (Inr out', requests @ [pageToken])))"

definition listAll ::
  "(string option \<Rightarrow> drive_error + 'f page)
     \<Rightarrow> ((drive_error + 'f list) \<times> string option list) option" where
  "listAll list = listAll_loop list [] None []"

text \<open>
  What a store serves, for the statements about \<open>listAll\<close>: \<open>serves list t ps\<close>
  holds when the request with token \<open>t\<close> is answered by the first page of \<open>ps\<close>, each
  page but the last carries the token that is answered by the next one, and the last
  page carries none. \<open>serves_then_fails list t ps e\<close> holds when each page of \<open>ps\<close>
  carries a token and the request after the last page throws \<open>e\<close>.
\<close>

fun serves :: "(string option \<Rightarrow> drive_error + 'f page) \<Rightarrow> string option \<Rightarrow> 'f page list \<Rightarrow> bool" where
  "serves list t [] = False"
| "serves list t [p] = (list t = Inr p \<and> \<not> truthy (nextPageToken p))"
| "serves list t (p # q # ps) =
     (list t = Inr p \<and> truthy (nextPageToken p) \<and> serves list (nextPageToken p) (q # ps))"

fun serves_then_fails ::
  "(string option \<Rightarrow> drive_error + 'f page) \<Rightarrow> string option \<Rightarrow> 'f page list \<Rightarrow> drive_error \<Rightarrow> bool" where
  "serves_then_fails list t [] e = (list t = Inl e)"
| "serves_then_fails list t (p # ps) e =
     (list t = Inr p \<and> truthy (nextPageToken p) \<and> serves_then_fails list (nextPageToken p) ps e)"

definition page_items :: "'f page \<Rightarrow> 'f list" where
  "page_items p = (case page_files p of None \<Rightarrow> [] | Some fs \<Rightarrow> fs)"


section \<open>The store and the server's state (server/server.js)\<close>

text \<open>
  The store is the external object store the server talks to. The model keeps what
  the server's requests can observe: the files with their name, parents, type and
  trash flag, the ids the store will give to new files, and which requests the store
  refuses (the request then throws). Every request the server makes is recorded in
  \<open>calls\<close>. A query is the conjunction the server writes into \<^verbatim>\<open>q\<close>: the parent,
  and where present the exact name and the type, always with \<^verbatim>\<open>trashed=false\<close>; the
  server escapes the quotes of a name so that the store compares with the name itself.
  The model store answers a listing with all its matches on one page.
\<close>

record drive_file =
  df_id :: string
  df_name :: string
  df_parents :: "string list"
  df_mimeType :: string
  df_trashed :: bool
  df_body :: string

record query =
  q_parent :: string
  q_name :: "string option"
  q_mimeType :: "string option"

datatype call =
    Files_list query "string option"
  | Files_get string
  | Files_create string "string list" string
  | Files_delete string

text \<open>The values the server puts into its cache: the bytes of a file, or a listing.\<close>

datatype 'l cached = Bytes string | Index 'l

record 'l server =
  drive_files :: "drive_file list"
  mint :: "nat \<Rightarrow> string"
  minted :: nat
  unavailable :: "call \<Rightarrow> bool"
  calls :: "call list"
  cache :: "'l cached node_cache"

definition satisfies :: "query \<Rightarrow> drive_file \<Rightarrow> bool" where
  "satisfies q f =
     (q_parent q \<in> set (df_parents f)
      \<and> (case q_name q of None \<Rightarrow> True | Some n \<Rightarrow> df_name f = n)
      \<and> (case q_mimeType q of None \<Rightarrow> True | Some m \<Rightarrow> df_mimeType f = m)
      \<and> \<not> df_trashed f)"

definition drive_files_list ::
  "'l server \<Rightarrow> query \<Rightarrow> string option \<Rightarrow> drive_error + drive_file page" where
  "drive_files_list s q pageToken =
     (if unavailable s (Files_list q pageToken) then Inl DriveError
      else Inr \<lparr>page_files = Some (filter (satisfies q) (drive_files s)),
                nextPageToken = None\<rparr>)"

definition drive_files_create ::
  "string \<Rightarrow> string list \<Rightarrow> string \<Rightarrow> string \<Rightarrow> 'l server \<Rightarrow> (drive_error + string) \<times> 'l server" where
  "drive_files_create name parents mimeType body s =
     (let c = Files_create name parents mimeType;
          s' = s\<lparr>calls := calls s @ [c]\<rparr>
      in if unavailable s c then (Inl DriveError, s')
         else (let i = mint s (minted s)
               in (Inr i,
                   s'\<lparr>drive_files := drive_files s @
                         [\<lparr>df_id = i, df_name = name, df_parents = parents,
                           df_mimeType = mimeType, df_trashed = False, df_body = body\<rparr>],
                       minted := Suc (minted s)\<rparr>)))"

definition drive_files_delete :: "string \<Rightarrow> 'l server \<Rightarrow> (drive_error + unit) \<times> 'l server" where
  "drive_files_delete fileId s =
     (let c = Files_delete fileId;
          s' = s\<lparr>calls := calls s @ [c]\<rparr>
      in if unavailable s c \<or> \<not> list_ex (\<lambda>f. df_id f = fileId) (drive_files s)
         then (Inl DriveError, s')
         else (Inr (), s'\<lparr>drive_files := filter (\<lambda>f. df_id f \<noteq> fileId) (drive_files s)\<rparr>))"

text \<open>\<^verbatim>\<open>listAll(query, fields)\<close> against the store, with its requests recorded.\<close>

definition drive_listAll ::
  "query \<Rightarrow> 'l server \<Rightarrow> ((drive_error + drive_file list) \<times> 'l server) option" where
  "drive_listAll q s =
     (case listAll (drive_files_list s q) of
        None \<Rightarrow> None
      | Some (r, requests) \<Rightarrow> Some (r, s\<lparr>calls := calls s @ map (Files_list q) requests\<rparr>))"


section \<open>Fetching the bytes of a file (server/server.js)\<close>

text \<open>
  What \<^verbatim>\<open>drive.files.get\<close> resolves to with \<^verbatim>\<open>alt: 'media'\<close>: a Buffer, an
  ArrayBuffer, an object that the transport has parsed from JSON, or anything else,
  which \<^verbatim>\<open>String\<close> turns into a string. \<^verbatim>\<open>Buffer.from\<close> of a string is its UTF-8
  encoding. \<^verbatim>\<open>JSON.stringify\<close> is a parameter of the model.
\<close>

datatype 'j drive_data =
    Buffer_data string
  | ArrayBuffer_data string
  | Object_data 'j
  | Other_data string

definition Buffer_from :: "string \<Rightarrow> string" where
  "Buffer_from str =
     concat (map (\<lambda>c. let n = (of_char c :: nat)
                       in if n < 128 then [c]
                          else [char_of (192 + n div 64), char_of (128 + n mod 64)]) str)"

definition to_buf :: "('j \<Rightarrow> string) \<Rightarrow> 'j drive_data \<Rightarrow> string" where
  "to_buf stringify data =
     (case data of
        Buffer_data b \<Rightarrow> b
      | ArrayBuffer_data b \<Rightarrow> b
      | Object_data j \<Rightarrow> Buffer_from (stringify j)
      | Other_data x \<Rightarrow> Buffer_from x)"

text \<open>
  \<^verbatim>\<open>fetchFileBytes\<close> is an \<^verbatim>\<open>async\<close> function with one \<^verbatim>\<open>await\<close>. A call runs
  without interruption up to the \<^verbatim>\<open>await\<close>: it looks the key up and either returns
  the hit or sends the request to the store and suspends. When the answer arrives the
  call resumes: it converts the data, stores the buffer in the cache and returns it.
  Other calls can run between the two halves. A value in the cache is an object, so
  \<^verbatim>\<open>if (hit)\<close> holds for every hit.
\<close>

datatype 'a suspended = Returned 'a | Awaiting string

definition fetchFileBytes_call ::
  "string \<Rightarrow> 'l server \<Rightarrow> 'l cached suspended \<times> 'l server" where
  "fetchFileBytes_call fileId s =
     (let key = ''file-'' @ fileId
      in case cacheGet (cache s) key of
           Some hit \<Rightarrow> (Returned hit, s)
         | None \<Rightarrow> (Awaiting fileId, s\<lparr>calls := calls s @ [Files_get fileId]\<rparr>))"

definition fetchFileBytes_resume ::
  "('j \<Rightarrow> string) \<Rightarrow> string \<Rightarrow> drive_error + 'j drive_data \<Rightarrow> 'l server
     \<Rightarrow> (drive_error + 'l cached) \<times> 'l server" where
  "fetchFileBytes_resume stringify fileId answer s =
     (let key = ''file-'' @ fileId
      in case answer of
           Inl e \<Rightarrow> (Inl e, s)
         | Inr data \<Rightarrow>
             (let buf = Bytes (to_buf stringify data)
              in (Inr buf, s\<lparr>cache := cacheSet key buf (cache s)\<rparr>)))"


section \<open>Saving a file to the results (server/server.js)\<close>

text \<open>
  The body of \<^verbatim>\<open>POST /api/save-json\<close>. A field that the body does not have is
  \<open>None\<close>. The content is a string or another JSON value; \<^verbatim>\<open>JSON.stringify\<close> is a
  parameter. A body that is \<^verbatim>\<open>undefined\<close> makes the destructuring throw, which the
  handler's \<^verbatim>\<open>catch\<close> answers with 500, as it answers every request to the store
  that throws.
\<close>

datatype 'j content = Text string | Json 'j

record 'j json_file_body =
  b_name :: "string option"
  b_content :: "'j content option"

record 'j save_body =
  b_jsonFile :: "'j json_file_body option"
  b_folderName :: "string option"

datatype response = Response nat string

definition folder_mime :: string where
  "folder_mime = ''application/vnd.google-apps.folder''"

definition json_mime :: string where
  "json_mime = ''application/json''"

definition bad_request :: response where
  "bad_request =
     Response 400 ''Invalid request: must include folderName, jsonFile.name, jsonFile.content''"

definition save_failed :: response where
  "save_failed = Response 500 ''Failed to save JSON file''"

definition save_file ::
  "string \<Rightarrow> string \<Rightarrow> string \<Rightarrow> 'l server \<Rightarrow> (response \<times> 'l server) option" where
  "save_file destFolderId name mediaBody s =
     (case drive_listAll \<lparr>q_parent = destFolderId, q_name = Some name,
                          q_mimeType = Some json_mime\<rparr> s of
        None \<Rightarrow> None
      | Some (Inl e, s1) \<Rightarrow> Some (save_failed, s1)
      | Some (Inr existingFiles, s1) \<Rightarrow>
          (case (case existingFiles of
                   [] \<Rightarrow> (Inr (), s1)
                 | x # _ \<Rightarrow> drive_files_delete (df_id x) s1) of
             (Inl e, s2) \<Rightarrow> Some (save_failed, s2)
           | (Inr _, s2) \<Rightarrow>
               (case drive_files_create name [destFolderId] json_mime mediaBody s2 of
                  (Inl e, s3) \<Rightarrow> Some (save_failed, s3)
                | (Inr _, s3) \<Rightarrow>
                    Some (Response 200 ''File saved successfully'',
                          s3\<lparr>cache := cacheDel (Some ''result-index'') (cache s3)\<rparr>))))"

definition save_json ::
  "string \<Rightarrow> ('j \<Rightarrow> string) \<Rightarrow> 'j save_body option \<Rightarrow> 'l server
     \<Rightarrow> (response \<times> 'l server) option" where
  "save_json RESULT_FOLDER_ID stringify body s =
     (case body of
        None \<Rightarrow> Some (save_failed, s)
      | Some b \<Rightarrow>
          (let jsonFile = (case b_jsonFile b of
                             None \<Rightarrow> \<lparr>b_name = None, b_content = None\<rparr>
                           | Some jf \<Rightarrow> jf)
           in case b_folderName b of
                None \<Rightarrow> Some (bad_request, s)
              | Some fname \<Rightarrow>
                  if fname = [] then Some (bad_request, s)
                  else (case b_name jsonFile of
                          None \<Rightarrow> Some (bad_request, s)
                        | Some name \<Rightarrow>
                            if name = [] then Some (bad_request, s)
                            else (case b_content jsonFile of
                                    None \<Rightarrow> Some (bad_request, s)
                                  | Some c \<Rightarrow>
     (case drive_listAll \<lparr>q_parent = RESULT_FOLDER_ID, q_name = Some fname,
                          q_mimeType = Some folder_mime\<rparr> s of
        None \<Rightarrow> None
      | Some (Inl e, s1) \<Rightarrow> Some (save_failed, s1)
      | Some (Inr matches, s1) \<Rightarrow>
          (case (case matches of
                   [] \<Rightarrow> drive_files_create fname [RESULT_FOLDER_ID] folder_mime [] s1
                 | m # _ \<Rightarrow> (Inr (df_id m), s1)) of
             (Inl e, s2) \<Rightarrow> Some (save_failed, s2)
           | (Inr destFolderId, s2) \<Rightarrow>
               save_file destFolderId name
                 (case c of Text t \<Rightarrow> t | Json j \<Rightarrow> stringify j) s2))))))"


section \<open>Reading a listing on the client (src/services/driveService.ts)\<close>

text \<open>
  \<^verbatim>\<open>text.replace(/\/\/# sourceMappingURL=[^\n]*/, '')\<close>: the first occurrence of the
  marker is removed together with the rest of its line.
\<close>

definition source_map_marker :: string where
  "source_map_marker = ''//# sourceMappingURL=''"

fun remove_source_map :: "string \<Rightarrow> string" where
  "remove_source_map [] = []"
| "remove_source_map (c # cs) =
     (if startsWith (c # cs) source_map_marker
      then dropWhile (\<lambda>x. x \<noteq> CHR 0x0A) (drop (length source_map_marker) (c # cs))
      else c # remove_source_map cs)"

text \<open>
  \<^verbatim>\<open>JSON.parse\<close> is a parameter: \<open>None\<close> where it throws. The value returned is the
  literal \<^verbatim>\<open>[]\<close> or what \<^verbatim>\<open>JSON.parse\<close> gave.
\<close>

datatype fetch_error = HttpError nat | ParseError

datatype 'j parsed = EmptyArray | Parsed 'j

definition extractValidJson :: "(string \<Rightarrow> 'j option) \<Rightarrow> string \<Rightarrow> fetch_error + 'j parsed" where
  "extractValidJson parse text =
     (if text = [] \<or> startsWith (trim text) ''//# sourceMappingURL'' then Inr EmptyArray
      else (let jsonText = trim (remove_source_map text)
            in if jsonText \<noteq> []
               then (case parse jsonText of
                       None \<Rightarrow> Inl ParseError
                     | Some v \<Rightarrow> Inr (Parsed v))
               else Inr EmptyArray))"

record http_response =
  ok :: bool
  http_status :: nat
  body_text :: string

definition fetchMarkdownFiles :: "(string \<Rightarrow> 'j option) \<Rightarrow> http_response \<Rightarrow> fetch_error + 'j parsed" where
  "fetchMarkdownFiles parse response =
     (if \<not> ok response then Inl (HttpError (http_status response))
      else extractValidJson parse (body_text response))"

definition fetchJsonFolders :: "(string \<Rightarrow> 'j option) \<Rightarrow> http_response \<Rightarrow> fetch_error + 'j parsed" where
  "fetchJsonFolders parse response =
     (if \<not> ok response then Inl (HttpError (http_status response))
      else extractValidJson parse (body_text response))"

definition fetchResultFiles :: "(string \<Rightarrow> 'j option) \<Rightarrow> http_response \<Rightarrow> fetch_error + 'j parsed" where
  "fetchResultFiles parse response =
     (if \<not> ok response then Inl (HttpError (http_status response))
      else extractValidJson parse (body_text response))"


text \<open>
  The files of a folder that have a given name and are not in the trash, whatever their type.
\<close>

definition named_in :: "string \<Rightarrow> string \<Rightarrow> drive_file list \<Rightarrow> drive_file list" where
  "named_in folder name fs =
     filter (\<lambda>f. folder \<in> set (df_parents f) \<and> df_name f = name \<and> \<not> df_trashed f) fs"


section \<open>The specification's wording of the match key and of the status\<close>

text \<open>
  Two definitions that follow the words of the specification and not the code, for
  comparison with \<open>mdPrefix\<close> and with \<open>determineFileStatuses\<close>. The match key of
  a document: strip the extension (the last dot and what follows it), split the rest
  at the underscores and join the first three segments. The status of a document: the
  result folder is the one whose name equals the raw name of the matching folder.
\<close>

definition spec_strip_extension :: "string \<Rightarrow> string" where
  "spec_strip_extension name =
     (if CHR ''.'' \<in> set name
      then rev (tl (dropWhile (\<lambda>c. c \<noteq> CHR ''.'') (rev name)))
      else name)"

definition spec_match_key :: "string \<Rightarrow> string" where
  "spec_match_key name = join ''_'' (take 3 (js_split CHR ''_'' (spec_strip_extension name)))"

definition spec_status ::
  "markdown_file \<Rightarrow> 'j json_folder list \<Rightarrow> result_folder list \<Rightarrow> status" where
  "spec_status md folders resultFolders =
     (case find (\<lambda>f. Some (fo_id f) = matchingFolderId md) folders of
        None \<Rightarrow> Pending
      | Some container \<Rightarrow>
          (case find (\<lambda>r. folderName r = fo_name container) resultFolders of
             None \<Rightarrow> if list_ex edited (fo_files container) then InProgress else Pending
           | Some r \<Rightarrow>
               (let totalItems = length (fo_files container);
                    completedCount =
                      length (filter (\<lambda>n. n \<in> set (map rf_name (rfo_files r)))
                                (map jf_name (fo_files container)))
                in if completedCount = 0 then Pending
                   else if completedCount < totalItems then InProgress
                   else Completed)))"

section \<open>Concrete inputs\<close>

text \<open>Small inputs on which the statements below are evaluated.\<close>

definition page1 :: "nat page" where
  "page1 = \<lparr>page_files = Some [1, 2], nextPageToken = Some ''t1''\<rparr>"

definition page2 :: "nat page" where
  "page2 = \<lparr>page_files = Some [3], nextPageToken = None\<rparr>"

definition two_pages :: "string option \<Rightarrow> drive_error + nat page" where
  "two_pages t =
     (if t = None then Inr page1 else if t = Some ''t1'' then Inr page2 else Inl DriveError)"

definition one_page_then_error :: "string option \<Rightarrow> drive_error + nat page" where
  "one_page_then_error t = (if t = None then Inr page1 else Inl DriveError)"

definition some_cache :: "nat node_cache" where
  "some_cache = [(''file-a'', 1), (''result-index'', 2), (''file-b'', 3), (''fil'', 4)]"

definition item :: "string \<Rightarrow> string \<Rightarrow> bool \<Rightarrow> unit json_file" where
  "item i n a = \<lparr>jf_id = i, jf_name = n, jf_content = None, folderId = Some ''F1'',
                 edited = False, approved = a\<rparr>"

definition four_items :: "unit json_file list" where
  "four_items = [item ''1'' ''a.json'' True, item ''2'' ''b.json'' False,
                 item ''3'' ''c.json'' False, item ''4'' ''d.json'' False]"



definition mk_file :: "string \<Rightarrow> string \<Rightarrow> string \<Rightarrow> string \<Rightarrow> drive_file" where
  "mk_file i n p m = \<lparr>df_id = i, df_name = n, df_parents = [p], df_mimeType = m,
                       df_trashed = False, df_body = []\<rparr>"

definition store_with :: "drive_file list \<Rightarrow> unit server" where
  "store_with fs =
     \<lparr>drive_files = fs, mint = (\<lambda>n. ''new'' @ replicate n CHR ''+''), minted = 0,
      unavailable = (\<lambda>c. False), calls = [],
      cache = [(''result-index'', Index ()), (''markdown-index'', Index ())]\<rparr>"

definition out_folder :: drive_file where
  "out_folder = mk_file ''R1'' ''out'' ''ROOT'' folder_mime"

definition old_file :: drive_file where
  "old_file = mk_file ''x1'' ''a.json'' ''R1'' json_mime"

definition old_copy :: drive_file where
  "old_copy = mk_file ''x2'' ''a.json'' ''R1'' json_mime"

definition save_a :: "unit save_body" where
  "save_a = \<lparr>b_jsonFile = Some \<lparr>b_name = Some ''a.json'', b_content = Some (Text ''{}'')\<rparr>,
             b_folderName = Some ''out''\<rparr>"


text \<open>
  \<^verbatim>\<open>JSON.parse\<close> on the two texts \<^verbatim>\<open>true\<close> and \<^verbatim>\<open>false\<close>. Each of the other
  texts it is applied to below is one that \<^verbatim>\<open>JSON.parse\<close> rejects as well.
\<close>

definition bool_json :: "string \<Rightarrow> bool option" where
  "bool_json t = (if t = ''true'' then Some True else if t = ''false'' then Some False else None)"

definition ok_response :: "string \<Rightarrow> http_response" where
  "ok_response t = \<lparr>ok = True, http_status = 200, body_text = t\<rparr>"

definition mk_doc :: "string \<Rightarrow> string \<Rightarrow> markdown_file" where
  "mk_doc i n = \<lparr>md_id = i, md_name = n, matchingFolderId = None, md_status = None\<rparr>"

definition mk_folder :: "string \<Rightarrow> string \<Rightarrow> unit json_file list \<Rightarrow> unit json_folder" where
  "mk_folder i n fs =
     \<lparr>fo_id = i, fo_name = n, fo_files = fs, matchingMarkdownId = None, progress = None\<rparr>"

definition two_docs :: "markdown_file list" where
  "two_docs = [mk_doc ''D1'' ''RPT_2024_01_summary.md'', mk_doc ''D2'' ''rpt_2024_01_notes.md'']"

definition one_folder :: "unit json_folder list" where
  "one_folder = [mk_folder ''F1'' ''rpt_2024_01_data'' four_items]"
definition one_doc :: "markdown_file list" where
  "one_doc = [mk_doc ''D1'' ''RPT_2024_01_summary.md'']"

definition results_named :: "string \<Rightarrow> result_folder list" where
  "results_named n =
     [\<lparr>rfo_folderId = ''R1'', folderName = n,
       rfo_files = [\<lparr>rf_id = ''r1'', rf_name = ''a.json''\<rparr>, \<lparr>rf_id = ''r2'', rf_name = ''b.json''\<rparr>,
                    \<lparr>rf_id = ''r3'', rf_name = ''c.json''\<rparr>, \<lparr>rf_id = ''r4'', rf_name = ''d.json''\<rparr>]\<rparr>]"

definition dotted_doc :: "markdown_file list" where
  "dotted_doc = [mk_doc ''D1'' ''notes.md_2024_01_v2.md'']"

definition notes_folder :: "unit json_folder list" where
  "notes_folder = [mk_folder ''F1'' ''notes_2024_01'' []]"

section \<open>Properties of the cache\<close>

lemma fold_cache_del:
  "fold (\<lambda>k c'. if startsWith k pref then cache_del k c' else c') ks c
     = filter (\<lambda>e. \<not> (fst e \<in> set ks \<and> startsWith (fst e) pref)) c"
proof (induction ks arbitrary: c)
  case Nil
  show ?case by simp
next
  case (Cons k ks)
  show ?case
    by (auto simp: Cons.IH cache_del_def intro!: filter_cong)
qed

lemma map_of_filter_key:
  "map_of (filter (\<lambda>e. P (fst e)) c) k = (if P k then map_of c k else None)"
  by (induction c) auto

lemma cacheDel_filter:
  "cacheDel arg c =
     filter (\<lambda>e. \<not> startsWith (fst e) (case arg of None \<Rightarrow> [] | Some p \<Rightarrow> p)) c"
proof (cases "(case arg of None \<Rightarrow> [] | Some p \<Rightarrow> p) = []")
  case True
  then show ?thesis
    by (simp add: cacheDel_def cache_flushAll_def startsWith_def)
next
  case False
  then show ?thesis
    by (auto simp: cacheDel_def fold_cache_del cache_keys_def intro!: filter_cong)
qed

text \<open>
  C8. \<open>cacheDel\<close> with the prefix \<open>p\<close> leaves exactly the entries whose key does not
  start with \<open>p\<close>, in their order and with their values: a key that starts with \<open>p\<close>
  is no longer found, and every other key is found with the value it had. With the
  empty prefix, or with none, nothing is left.
\<close>

theorem cacheDel_removes_exactly_prefix:
  "cacheDel arg c =
     filter (\<lambda>e. \<not> startsWith (fst e) (case arg of None \<Rightarrow> [] | Some p \<Rightarrow> p)) c
   \<and> cacheGet (cacheDel arg c) k =
       (if startsWith k (case arg of None \<Rightarrow> [] | Some p \<Rightarrow> p) then None else cacheGet c k)
   \<and> cacheDel None c = [] \<and> cacheDel (Some []) c = []"
proof (intro conjI)
  let ?pref = "case arg of None \<Rightarrow> [] | Some p \<Rightarrow> p"
  show "cacheDel arg c = filter (\<lambda>e. \<not> startsWith (fst e) ?pref) c"
    by (rule cacheDel_filter)
  show "cacheGet (cacheDel arg c) k = (if startsWith k ?pref then None else cacheGet c k)"
    unfolding cacheGet_def cache_get_def cacheDel_filter
    using map_of_filter_key [of "\<lambda>x. \<not> startsWith x ?pref" c k] by simp
  show "cacheDel None c = []"
    by (simp add: cacheDel_def cache_flushAll_def)
  show "cacheDel (Some []) c = []"
    by (simp add: cacheDel_def cache_flushAll_def)
qed

theorem cacheDel_removes_exactly_prefix_witness:
  "cacheDel (Some ''file-'') some_cache = [(''result-index'', 2), (''fil'', 4)]
   \<and> cacheGet (cacheDel (Some ''file-'') some_cache) ''file-b'' = None
   \<and> cacheGet (cacheDel (Some ''file-'') some_cache) ''fil'' = Some 4
   \<and> cacheDel None some_cache = []"
  using cacheDel_removes_exactly_prefix [of "Some ''file-''" some_cache "''file-b''"]
    cacheDel_removes_exactly_prefix [of "Some ''file-''" some_cache "''fil''"]
  by (simp add: some_cache_def startsWith_def cacheGet_def cache_get_def)


section \<open>Properties of the listing\<close>

lemma out_page_items:
  "(case page_files d of None \<Rightarrow> out | Some fs \<Rightarrow> if length fs \<noteq> 0 then out @ fs else out)
     = out @ page_items d"
  by (simp add: page_items_def split: option.splits)

lemma listAll_loop_serves:
  "serves list t ps \<Longrightarrow>
   listAll_loop list out t reqs =
     Some (Inr (out @ concat (map page_items ps)), reqs @ t # map nextPageToken (butlast ps))"
proof (induction list t ps arbitrary: out reqs rule: serves.induct)
  case (1 list t)
  then show ?case by simp
next
  case (2 list t p)
  then show ?case
    by (subst listAll_loop.simps) (simp add: out_page_items)
next
  case (3 list t p q ps)
  then show ?case
    by (subst listAll_loop.simps) (simp add: out_page_items)
qed

lemma listAll_loop_fails:
  "serves_then_fails list t ps e \<Longrightarrow>
   listAll_loop list out t reqs = Some (Inl e, reqs @ t # map nextPageToken ps)"
proof (induction list t ps e arbitrary: out reqs rule: serves_then_fails.induct)
  case (1 list t e)
  then show ?case
    by (subst listAll_loop.simps) simp
next
  case (2 list t p ps e)
  then show ?case
    by (subst listAll_loop.simps) (simp add: Let_def)
qed

text \<open>
  C3. When the store serves the pages \<open>ps\<close>, \<open>listAll\<close> returns: its result is the
  concatenation of the pages in their order, and its requests are the first one
  without a token and then one for the token of each page but the last, which carries
  none. When a request throws after the pages \<open>ps\<close>, each of which carried a token,
  \<open>listAll\<close> returns the error and none of the files of \<open>ps\<close>.
\<close>

theorem listAll_concatenates_pages:
  "(serves list None ps \<longrightarrow>
      listAll list = Some (Inr (concat (map page_items ps)), None # map nextPageToken (butlast ps)))
   \<and> (serves_then_fails list None ps e \<longrightarrow>
      listAll list = Some (Inl e, None # map nextPageToken ps))"
  by (simp add: listAll_def listAll_loop_serves listAll_loop_fails)

theorem listAll_concatenates_pages_witness:
  "serves two_pages None [page1, page2]
   \<and> listAll two_pages = Some (Inr [1, 2, 3], [None, Some ''t1''])
   \<and> serves_then_fails one_page_then_error None [page1] DriveError
   \<and> listAll one_page_then_error = Some (Inl DriveError, [None, Some ''t1''])"
proof -
  have a: "serves two_pages None [page1, page2]"
    by (simp add: two_pages_def page1_def page2_def truthy_def)
  have b: "serves_then_fails one_page_then_error None [page1] DriveError"
    by (simp add: one_page_then_error_def page1_def truthy_def)
  from a listAll_concatenates_pages [of two_pages "[page1, page2]" DriveError]
  have "listAll two_pages = Some (Inr [1, 2, 3], [None, Some ''t1''])"
    by (simp add: page_items_def page1_def page2_def)
  moreover from b listAll_concatenates_pages [of one_page_then_error "[page1]" DriveError]
  have "listAll one_page_then_error = Some (Inl DriveError, [None, Some ''t1''])"
    by (simp add: page1_def)
  ultimately show ?thesis using a b by simp
qed


section \<open>Properties of the progress\<close>




section \<open>Properties of saving to the results\<close>

lemma drive_listAll_eq:
  "drive_listAll q s =
     Some (if unavailable s (Files_list q None) then Inl DriveError
           else Inr (filter (satisfies q) (drive_files s)),
           s\<lparr>calls := calls s @ [Files_list q None]\<rparr>)"
  unfolding drive_listAll_def listAll_def
  by (subst listAll_loop.simps) (simp add: drive_files_list_def truthy_def)



lemma save_file_success:
  assumes "save_file dest name body s = Some (Response 200 msg, s')"
    and "filter (satisfies \<lparr>q_parent = dest, q_name = Some name, q_mimeType = Some json_mime\<rparr>)
           (drive_files s) = x # xs"
  shows "calls s' = calls s @
           [Files_list \<lparr>q_parent = dest, q_name = Some name, q_mimeType = Some json_mime\<rparr> None,
            Files_delete (df_id x), Files_create name [dest] json_mime]
       \<and> drive_files s' = filter (\<lambda>f. df_id f \<noteq> df_id x) (drive_files s) @
           [\<lparr>df_id = mint s (minted s), df_name = name, df_parents = [dest],
             df_mimeType = json_mime, df_trashed = False, df_body = body\<rparr>]
       \<and> cache s' = cacheDel (Some ''result-index'') (cache s)"
  using assms
  by (auto simp: save_file_def drive_listAll_eq drive_files_delete_def drive_files_create_def
        save_failed_def Let_def split: if_splits)


lemma named_in_json:
  "named_in dest name fs = [x] \<Longrightarrow> df_mimeType x = json_mime \<Longrightarrow>
   filter (satisfies \<lparr>q_parent = dest, q_name = Some name, q_mimeType = Some json_mime\<rparr>) fs = [x]"
proof -
  assume a: "named_in dest name fs = [x]" and m: "df_mimeType x = json_mime"
  have "filter (satisfies \<lparr>q_parent = dest, q_name = Some name, q_mimeType = Some json_mime\<rparr>) fs
          = filter (\<lambda>f. df_mimeType f = json_mime) (named_in dest name fs)"
    by (auto simp: named_in_def satisfies_def intro!: filter_cong)
  with a m show ?thesis by simp
qed

lemma named_in_after:
  "named_in dest name (filter (\<lambda>f. df_id f \<noteq> i) fs @ [g])
     = filter (\<lambda>f. df_id f \<noteq> i) (named_in dest name fs) @ named_in dest name [g]"
  by (auto simp: named_in_def intro!: filter_cong)

lemma cacheGet_after_cacheDel:
  "cacheGet (cacheDel (Some p) c) k = (if startsWith k p then None else cacheGet c k)"
  unfolding cacheGet_def cache_get_def cacheDel_filter
  using map_of_filter_key [of "\<lambda>x. \<not> startsWith x p" c k] by simp

text \<open>
  C5, as amended. When the save succeeds, the destination folder is the first folder
  of the results with the given name, and that folder holds exactly one file of the
  given name outside the trash, of type \<^verbatim>\<open>application/json\<close>: the server lists the
  folder, lists the file, deletes the file and only then creates the new one; afterwards
  the folder holds exactly one file of that name; and the key \<^verbatim>\<open>result-index\<close> is not
  in the cache.
\<close>

theorem save_json_replaces_existing:
  assumes ok: "save_json RESULT_FOLDER_ID stringify (Some b) s = Some (Response 200 msg, s')"
    and body: "b_folderName b = Some fname" "b_jsonFile b = Some jf" "b_name jf = Some name"
    and dest: "filter (satisfies \<lparr>q_parent = RESULT_FOLDER_ID, q_name = Some fname,
                                   q_mimeType = Some folder_mime\<rparr>) (drive_files s) = d # ds"
    and one: "named_in (df_id d) name (drive_files s) = [x]"
    and json: "df_mimeType x = json_mime"
  shows "calls s' = calls s @
           [Files_list \<lparr>q_parent = RESULT_FOLDER_ID, q_name = Some fname,
                        q_mimeType = Some folder_mime\<rparr> None,
            Files_list \<lparr>q_parent = df_id d, q_name = Some name,
                        q_mimeType = Some json_mime\<rparr> None,
            Files_delete (df_id x),
            Files_create name [df_id d] json_mime]
       \<and> length (named_in (df_id d) name (drive_files s')) = 1
       \<and> cacheGet (cache s') ''result-index'' = None"
proof -
  let ?s1 = "s\<lparr>calls := calls s @
                 [Files_list \<lparr>q_parent = RESULT_FOLDER_ID, q_name = Some fname,
                              q_mimeType = Some folder_mime\<rparr> None]\<rparr>"
  from ok body dest obtain body' where
    sf: "save_file (df_id d) name body' ?s1 = Some (Response 200 msg, s')"
    by (auto simp: save_json_def drive_listAll_eq bad_request_def save_failed_def Let_def
          split: if_splits option.splits)
  from one json have ex:
    "filter (satisfies \<lparr>q_parent = df_id d, q_name = Some name, q_mimeType = Some json_mime\<rparr>)
       (drive_files ?s1) = x # []"
    by (simp add: named_in_json)
  note r = save_file_success [OF sf ex]
  from r have "calls s' = calls ?s1 @
           [Files_list \<lparr>q_parent = df_id d, q_name = Some name, q_mimeType = Some json_mime\<rparr> None,
            Files_delete (df_id x), Files_create name [df_id d] json_mime]"
    by blast
  then have c: "calls s' = calls s @
           [Files_list \<lparr>q_parent = RESULT_FOLDER_ID, q_name = Some fname,
                        q_mimeType = Some folder_mime\<rparr> None,
            Files_list \<lparr>q_parent = df_id d, q_name = Some name,
                        q_mimeType = Some json_mime\<rparr> None,
            Files_delete (df_id x),
            Files_create name [df_id d] json_mime]"
    by simp
  from r have "drive_files s' = filter (\<lambda>f. df_id f \<noteq> df_id x) (drive_files s) @
           [\<lparr>df_id = mint ?s1 (minted ?s1), df_name = name, df_parents = [df_id d],
             df_mimeType = json_mime, df_trashed = False, df_body = body'\<rparr>]"
    by simp
  then have n: "length (named_in (df_id d) name (drive_files s')) = 1"
    by (simp add: named_in_after one) (simp add: named_in_def)
  from r have "cache s' = cacheDel (Some ''result-index'') (cache s)"
    by simp
  then have "cacheGet (cache s') ''result-index'' = None"
    by (simp add: cacheGet_after_cacheDel startsWith_def)
  with c n show ?thesis by simp
qed

theorem save_json_replaces_existing_witness:
  "named_in ''R1'' ''a.json'' [out_folder, old_file] = [old_file]
   \<and> (case save_json ''ROOT'' (\<lambda>u. ''null'') (Some save_a) (store_with [out_folder, old_file]) of
        None \<Rightarrow> False
      | Some (r, s') \<Rightarrow>
          r = Response 200 ''File saved successfully''
          \<and> calls s' =
              [Files_list \<lparr>q_parent = ''ROOT'', q_name = Some ''out'',
                           q_mimeType = Some folder_mime\<rparr> None,
               Files_list \<lparr>q_parent = ''R1'', q_name = Some ''a.json'',
                           q_mimeType = Some json_mime\<rparr> None,
               Files_delete ''x1'',
               Files_create ''a.json'' [''R1''] json_mime]
          \<and> length (named_in ''R1'' ''a.json'' (drive_files s')) = 1
          \<and> cacheGet (cache s') ''result-index'' = None)"
proof -
  let ?s = "store_with [out_folder, old_file]"
  have "\<exists>s'. save_json ''ROOT'' (\<lambda>u. ''null'') (Some save_a) ?s
               = Some (Response 200 ''File saved successfully'', s')"
    by (simp add: save_json_def save_file_def drive_listAll_eq save_a_def store_with_def
        out_folder_def old_file_def mk_file_def satisfies_def folder_mime_def
        json_mime_def drive_files_delete_def drive_files_create_def Let_def)
  then obtain s' where ok: "save_json ''ROOT'' (\<lambda>u. ''null'') (Some save_a) ?s
               = Some (Response 200 ''File saved successfully'', s')" ..
  have b1: "b_folderName save_a = Some ''out''"
    and b2: "b_jsonFile save_a = Some \<lparr>b_name = Some ''a.json'', b_content = Some (Text ''{}'')\<rparr>"
    and b3: "b_name \<lparr>b_name = Some ''a.json'', b_content = Some (Text ''{}'')\<rparr> = Some ''a.json''"
    by (simp_all add: save_a_def)
  have dest: "filter (satisfies \<lparr>q_parent = ''ROOT'', q_name = Some ''out'',
                                  q_mimeType = Some folder_mime\<rparr>) (drive_files ?s)
                = out_folder # []"
    by (simp add: store_with_def out_folder_def old_file_def mk_file_def satisfies_def
          folder_mime_def json_mime_def)
  have one: "named_in (df_id out_folder) ''a.json'' (drive_files ?s) = [old_file]"
    by (simp add: store_with_def out_folder_def old_file_def mk_file_def named_in_def)
  have json: "df_mimeType old_file = json_mime"
    by (simp add: old_file_def mk_file_def)
  have one': "named_in ''R1'' ''a.json'' [out_folder, old_file] = [old_file]"
    using one by (simp add: store_with_def out_folder_def mk_file_def)
  from save_json_replaces_existing [OF ok b1 b2 b3 dest one json] ok one'
  show ?thesis
    by (simp add: store_with_def out_folder_def old_file_def mk_file_def)
qed

text \<open>
  C5 as stated fails when the folder holds the name twice: the server deletes the
  first file of the listing only, and two files of the name remain.
\<close>

theorem save_json_duplicate_counterexample:
  "named_in ''R1'' ''a.json'' [out_folder, old_file, old_copy] = [old_file, old_copy]
   \<and> map_option (\<lambda>(r, s'). (r, length (named_in ''R1'' ''a.json'' (drive_files s'))))
       (save_json ''ROOT'' (\<lambda>u. ''null'') (Some save_a)
          (store_with [out_folder, old_file, old_copy]))
     = Some (Response 200 ''File saved successfully'', 2)"
  by (simp add: save_json_def save_file_def drive_listAll_eq save_a_def store_with_def
        out_folder_def old_file_def old_copy_def mk_file_def satisfies_def folder_mime_def
        json_mime_def drive_files_delete_def drive_files_create_def named_in_def Let_def)


section \<open>Properties of fetching bytes\<close>

lemma cacheGet_cacheSet_same: "cacheGet (cacheSet k v c) k = Some v"
  unfolding cacheGet_def cacheSet_def cache_get_def cache_set_def cache_del_def
  using map_of_filter_key [of "\<lambda>x. x \<noteq> k" c k] by (simp add: map_add_def)

text \<open>
  C4, as amended. For a file that is not in the cache, two calls of \<open>fetchFileBytes\<close>
  of which the second starts before the first has its answer both send a request to the
  store: two round trips, and the second call waits for its own answer. Only a call
  that starts after the first has resumed and stored its buffer is answered from the
  cache, with no further request.
\<close>

theorem simultaneous_fetches_two_round_trips:
  assumes miss: "cacheGet (cache s) (''file-'' @ fileId) = None"
  shows "(let (r1, s1) = fetchFileBytes_call fileId s;
              (r2, s2) = fetchFileBytes_call fileId s1
          in r1 = Awaiting fileId \<and> r2 = Awaiting fileId
             \<and> calls s2 = calls s @ [Files_get fileId, Files_get fileId])
       \<and> (let (r1, s1) = fetchFileBytes_call fileId s;
              (b, s2) = fetchFileBytes_resume stringify fileId (Inr data) s1;
              (r3, s3) = fetchFileBytes_call fileId s2
          in b = Inr (Bytes (to_buf stringify data))
             \<and> r3 = Returned (Bytes (to_buf stringify data))
             \<and> calls s3 = calls s @ [Files_get fileId])"
  using miss
  by (simp add: fetchFileBytes_call_def fetchFileBytes_resume_def cacheGet_cacheSet_same Let_def)

theorem simultaneous_fetches_two_round_trips_witness:
  "cacheGet (cache (store_with [old_file])) (''file-'' @ ''x1'') = None
   \<and> (let (r1, s1) = fetchFileBytes_call ''x1'' (store_with [old_file]);
          (r2, s2) = fetchFileBytes_call ''x1'' s1
      in calls s2) = [Files_get ''x1'', Files_get ''x1'']
   \<and> (let (r1, s1) = fetchFileBytes_call ''x1'' (store_with [old_file]);
          (b, s2) = fetchFileBytes_resume (\<lambda>u::unit. ''null'') ''x1'' (Inr (Buffer_data ''{}'')) s1;
          (r3, s3) = fetchFileBytes_call ''x1'' s2
      in (r3, calls s3)) = (Returned (Bytes ''{}''), [Files_get ''x1''])"
proof -
  have miss: "cacheGet (cache (store_with [old_file])) (''file-'' @ ''x1'') = None"
    by (simp add: store_with_def cacheGet_def cache_get_def)
  from simultaneous_fetches_two_round_trips [OF miss, of "\<lambda>u::unit. ''null''" "Buffer_data ''{}''"] miss
  show ?thesis
    by (simp add: store_with_def to_buf_def fetchFileBytes_call_def fetchFileBytes_resume_def
          cacheGet_cacheSet_same Let_def)
qed

text \<open>
  C4 as stated fails: there is no table of pending requests, and two simultaneous
  calls for the file \<^verbatim>\<open>x1\<close> make two requests.
\<close>

theorem simultaneous_fetches_counterexample:
  "(let (r1, s1) = fetchFileBytes_call ''x1'' (store_with [old_file]);
        (r2, s2) = fetchFileBytes_call ''x1'' s1
    in (r1, r2, calls s2))
   = (Awaiting ''x1'', Awaiting ''x1'', [Files_get ''x1'', Files_get ''x1''])"
  by (simp add: fetchFileBytes_call_def store_with_def cacheGet_def cache_get_def Let_def)


section \<open>Properties of reading a listing\<close>

lemma dropWhile_rev_keeps:
  assumes "m \<noteq> []" and "\<not> P (last m)"
  shows "\<exists>r. rev (dropWhile P (rev (m @ rest))) = m @ r"
proof (induction rest rule: rev_induct)
  case Nil
  from assms have "dropWhile P (rev m) = rev m"
    by (cases "rev m") (auto simp: last_rev)
  then show ?case by simp
next
  case (snoc x xs)
  then show ?case by (cases "P x") auto
qed

lemma trim_keeps_head:
  assumes "m \<noteq> []" and "\<not> is_space (hd m)" and "\<not> is_space (last m)"
    and "\<forall>c\<in>set pre. is_space c"
  shows "startsWith (trim (pre @ m @ rest)) m"
proof -
  from assms(1,2,4) have a: "dropWhile is_space (pre @ m @ rest) = m @ rest"
    by (cases m) (simp_all add: dropWhile_append2)
  from dropWhile_rev_keeps [of m is_space rest] assms(1,3) obtain r
    where "rev (dropWhile is_space (rev (m @ rest))) = m @ r" by blast
  with a show ?thesis by (simp add: trim_def startsWith_def)
qed


lemma marker_ends: "\<not> is_space (hd ''//# sourceMappingURL'') \<and> \<not> is_space (last ''//# sourceMappingURL'')"
  by (simp add: is_space_def)

lemma extract_comment_only:
  "\<forall>c\<in>set pre. is_space c \<Longrightarrow>
   extractValidJson parse (pre @ ''//# sourceMappingURL'' @ rest) = Inr EmptyArray"
  using trim_keeps_head [of "''//# sourceMappingURL''" pre rest] marker_ends
  by (simp add: extractValidJson_def)

text \<open>
  C10, as amended. For each of the three fetches of a listing, when the response is
  ok: a body that after leading white space starts with \<^verbatim>\<open>//# sourceMappingURL\<close>
  gives the empty array, whatever follows; a body that is blank once the first
  source-map comment is removed, the empty body among them, gives the empty array;
  and any other body gives what \<^verbatim>\<open>JSON.parse\<close> makes of the trimmed rest: the parse
  error when it rejects it.
\<close>

theorem listing_fetch_of_body:
  assumes "fetch \<in> {fetchMarkdownFiles parse, fetchJsonFolders parse, fetchResultFiles parse}"
    and "ok response"
  shows "((\<forall>c\<in>set pre. is_space c)
            \<and> body_text response = pre @ ''//# sourceMappingURL'' @ rest
          \<longrightarrow> fetch response = Inr EmptyArray)
       \<and> (trim (remove_source_map (body_text response)) = []
          \<longrightarrow> fetch response = Inr EmptyArray)
       \<and> (\<not> startsWith (trim (body_text response)) ''//# sourceMappingURL''
            \<and> trim (remove_source_map (body_text response)) \<noteq> []
          \<longrightarrow> fetch response =
                (case parse (trim (remove_source_map (body_text response))) of
                   None \<Rightarrow> Inl ParseError
                 | Some v \<Rightarrow> Inr (Parsed v)))"
proof -
  from assms have f: "fetch response = extractValidJson parse (body_text response)"
    by (auto simp: fetchMarkdownFiles_def fetchJsonFolders_def fetchResultFiles_def)
  have 1: "(\<forall>c\<in>set pre. is_space c)
            \<and> body_text response = pre @ ''//# sourceMappingURL'' @ rest
          \<longrightarrow> fetch response = Inr EmptyArray"
    using extract_comment_only [of pre parse rest] f by auto
  have 2: "trim (remove_source_map (body_text response)) = []
          \<longrightarrow> fetch response = Inr EmptyArray"
    unfolding f by (simp add: extractValidJson_def)
  have 3: "\<not> startsWith (trim (body_text response)) ''//# sourceMappingURL''
            \<and> trim (remove_source_map (body_text response)) \<noteq> []
          \<longrightarrow> fetch response =
                (case parse (trim (remove_source_map (body_text response))) of
                   None \<Rightarrow> Inl ParseError
                 | Some v \<Rightarrow> Inr (Parsed v))"
    unfolding f by (auto simp: extractValidJson_def trim_def)
  from 1 2 3 show ?thesis by blast
qed

theorem listing_fetch_of_body_witness:
  "fetchJsonFolders bool_json (ok_response ''  //# sourceMappingURL=app.js.map'') = Inr EmptyArray
   \<and> fetchMarkdownFiles bool_json (ok_response []) = Inr EmptyArray
   \<and> fetchResultFiles bool_json (ok_response ''[1'') = Inl ParseError
   \<and> fetchResultFiles bool_json (ok_response '' true//# sourceMappingURL=app.js.map'')
       = Inr (Parsed True)"
proof -
  have o: "\<And>t. ok (ok_response t)" by (simp add: ok_response_def)
  have m: "fetchMarkdownFiles bool_json
             \<in> {fetchMarkdownFiles bool_json, fetchJsonFolders bool_json, fetchResultFiles bool_json}"
    and j: "fetchJsonFolders bool_json
             \<in> {fetchMarkdownFiles bool_json, fetchJsonFolders bool_json, fetchResultFiles bool_json}"
    and r: "fetchResultFiles bool_json
             \<in> {fetchMarkdownFiles bool_json, fetchJsonFolders bool_json, fetchResultFiles bool_json}"
    by simp_all
  have e: "\<And>t. trim (remove_source_map t) = [] \<or> trim (remove_source_map t) \<noteq> []" by simp
  from listing_fetch_of_body [OF j o, of "''  ''" "''  //# sourceMappingURL=app.js.map''" "''=app.js.map''"]
  have 1: "fetchJsonFolders bool_json (ok_response ''  //# sourceMappingURL=app.js.map'') = Inr EmptyArray"
    by (simp add: ok_response_def is_space_def)
  from listing_fetch_of_body [OF m o, of "[]" "[]" "[]"]
  have 2: "fetchMarkdownFiles bool_json (ok_response []) = Inr EmptyArray"
    by (simp add: ok_response_def trim_def)
  from listing_fetch_of_body [OF r o, of "[]" "''[1''" "[]"]
  have 3: "fetchResultFiles bool_json (ok_response ''[1'') = Inl ParseError"
    by (simp add: ok_response_def trim_def is_space_def startsWith_def source_map_marker_def
          bool_json_def)
  from listing_fetch_of_body [OF r o, of "[]" "'' true//# sourceMappingURL=app.js.map''" "[]"]
  have 4: "fetchResultFiles bool_json (ok_response '' true//# sourceMappingURL=app.js.map'')
             = Inr (Parsed True)"
    by (simp add: ok_response_def trim_def is_space_def startsWith_def source_map_marker_def
          bool_json_def)
  from 1 2 3 4 show ?thesis by simp
qed

text \<open>
  C10 as stated fails on a body of one space, which is not empty and is no JSON, and
  on a source-map comment followed by a line that is no JSON: both give the empty
  array.
\<close>

theorem listing_fetch_counterexample:
  "'' '' \<noteq> []
   \<and> bool_json (trim (remove_source_map '' '')) = None
   \<and> fetchMarkdownFiles bool_json (ok_response '' '') = Inr EmptyArray
   \<and> trim (remove_source_map (''//# sourceMappingURL=a.map'' @ [CHR 0x0A] @ ''{oops'')) = ''{oops''
   \<and> bool_json ''{oops'' = None
   \<and> fetchMarkdownFiles bool_json (ok_response (''//# sourceMappingURL=a.map'' @ [CHR 0x0A] @ ''{oops''))
       = Inr EmptyArray"
  by (simp add: fetchMarkdownFiles_def ok_response_def extractValidJson_def trim_def is_space_def
        startsWith_def source_map_marker_def bool_json_def)


section \<open>Properties of the matching\<close>

lemma find_prefix_shape:
  "map_option fo_id (find (prefix_match md) fs)
     = map_option snd (find (\<lambda>p. toLowerCase (folderPrefix (fst p)) = toLowerCase (mdPrefix (md_name md)))
                         (shape fs))"
  by (induction fs) (simp_all add: shape_def prefix_match_def)

lemma findIndex_id_shape:
  "findIndex (\<lambda>f. fo_id f = x) fs = findIndex (\<lambda>p. snd p = x) (shape fs)"
  by (induction fs) (simp_all add: shape_def)

lemma target_index_shape:
  "target_index md fs =
     (case map_option fo_id (find (prefix_match md) fs) of
        None \<Rightarrow> None
      | Some x \<Rightarrow> findIndex (\<lambda>f. fo_id f = x) fs)"
  by (simp add: target_index_def split: option.splits)

lemma same_shape_find:
  "shape fs = shape fs0 \<Longrightarrow>
   map_option fo_id (find (prefix_match md) fs) = map_option fo_id (find (prefix_match md) fs0)"
  by (simp add: find_prefix_shape)

lemma same_shape_target:
  assumes "shape fs = shape fs0"
  shows "target_index md fs = target_index md fs0"
proof -
  have "\<And>x. findIndex (\<lambda>f. fo_id f = x) fs = findIndex (\<lambda>f. fo_id f = x) fs0"
    using assms by (simp add: findIndex_id_shape)
  then show ?thesis
    by (simp only: target_index_shape same_shape_find [OF assms])
qed

lemma assign_same_shape:
  assumes "shape fs = shape fs0"
  shows "assign fs md = assign fs0 md"
proof -
  note e = same_shape_find [OF assms, of md]
  show ?thesis
  proof (cases "find (prefix_match md) fs")
    case None
    with e have "find (prefix_match md) fs0 = None" by simp
    with None show ?thesis by (simp add: assign_def)
  next
    case (Some f)
    with e obtain f0 where "find (prefix_match md) fs0 = Some f0" "fo_id f0 = fo_id f"
      by (cases "find (prefix_match md) fs0") auto
    with Some show ?thesis by (simp add: assign_def)
  qed
qed

lemma match_step_eq:
  "shape fs = shape fs0 \<Longrightarrow> match_step md fs = (assign fs0 md, record_match fs0 md fs)"
proof -
  assume sh: "shape fs = shape fs0"
  have "match_step md fs = (assign fs md, record_match fs md fs)"
    by (simp add: match_step_def assign_def record_match_def target_index_def split: option.splits)
  then show ?thesis
    by (simp only: assign_same_shape [OF sh] record_match_def same_shape_target [OF sh])
qed

lemma map_update_same:
  assumes "g y = g (fs ! j)"
  shows "map g (fs[j := y]) = map g fs"
proof (cases "j < length fs")
  case True
  then have "(map g fs)[j := g (fs ! j)] = map g fs"
    by (metis list_update_id nth_map)
  with assms show ?thesis by (simp add: map_update)
next
  case False
  then show ?thesis by (simp add: list_update_beyond)
qed

lemma shape_record_match: "shape (record_match fs0 md fs) = shape fs"
  by (simp add: record_match_def shape_def map_update_same split: option.splits)

lemma matchFilesWithFolders_eq:
  "shape fs = shape fs0 \<Longrightarrow>
   matchFilesWithFolders mds fs = (map (assign fs0) mds, fold (record_match fs0) mds fs)"
proof (induction mds arbitrary: fs)
  case Nil
  show ?case by simp
next
  case (Cons md mds)
  have "shape (record_match fs0 md fs) = shape fs0"
    using Cons.prems by (simp add: shape_record_match)
  from Cons.IH [OF this] show ?case
    by (simp add: match_step_eq [OF Cons.prems])
qed

lemma length_record_match: "length (record_match fs0 md fs) = length fs"
  by (simp add: record_match_def split: option.splits)

lemma length_fold_record: "length (fold (record_match fs0) mds fs) = length fs"
  by (induction mds arbitrary: fs) (simp_all add: length_record_match)

lemma nth_record_match:
  "j < length fs \<Longrightarrow>
   matchingMarkdownId (record_match fs0 md fs ! j)
     = (if target_index md fs0 = Some j then Some (md_id md) else matchingMarkdownId (fs ! j))"
  by (auto simp: record_match_def nth_list_update split: option.splits)

lemma find_snoc:
  "find P (xs @ [x]) = (case find P xs of None \<Rightarrow> (if P x then Some x else None) | Some y \<Rightarrow> Some y)"
  by (induction xs) simp_all

lemma nth_fold_record:
  "j < length fs \<Longrightarrow>
   matchingMarkdownId (fold (record_match fs0) mds fs ! j)
     = (case find (\<lambda>md. target_index md fs0 = Some j) (rev mds) of
          None \<Rightarrow> matchingMarkdownId (fs ! j)
        | Some md \<Rightarrow> Some (md_id md))"
proof (induction mds arbitrary: fs)
  case Nil
  show ?case by simp
next
  case (Cons md mds)
  have "j < length (record_match fs0 md fs)"
    using Cons.prems by (simp add: length_record_match)
  from Cons.IH [OF this] Cons.prems show ?case
    by (simp add: find_snoc nth_record_match split: option.splits)
qed

text \<open>
  C7, as amended. The matching keeps the two lists in their order and length. Each
  markdown file is assigned at most one folder: the first folder in the list whose
  prefix equals its own without regard to case; a file that finds none keeps the field
  it came with. Each folder records at most one markdown file: the last file in the
  list whose step wrote into it; a folder no step wrote into keeps the field it came
  with. Nothing keeps several files from being assigned the same folder.
\<close>

theorem matching_assigns_first_and_records_last:
  "(let (mds', folders') = matchFilesWithFolders mds folders
    in length mds' = length mds \<and> length folders' = length folders
       \<and> (\<forall>i<length mds.
             matchingFolderId (mds' ! i)
               = (case find (prefix_match (mds ! i)) folders of
                    None \<Rightarrow> matchingFolderId (mds ! i)
                  | Some f \<Rightarrow> Some (fo_id f)))
       \<and> (\<forall>j<length folders.
             matchingMarkdownId (folders' ! j)
               = (case find (\<lambda>md. target_index md folders = Some j) (rev mds) of
                    None \<Rightarrow> matchingMarkdownId (folders ! j)
                  | Some md \<Rightarrow> Some (md_id md))))"
proof -
  have eq: "matchFilesWithFolders mds folders
              = (map (assign folders) mds, fold (record_match folders) mds folders)"
    by (simp add: matchFilesWithFolders_eq)
  have a: "\<forall>i<length mds.
             matchingFolderId (map (assign folders) mds ! i)
               = (case find (prefix_match (mds ! i)) folders of
                    None \<Rightarrow> matchingFolderId (mds ! i)
                  | Some f \<Rightarrow> Some (fo_id f))"
    by (simp add: assign_def split: option.splits)
  have b: "\<forall>j<length folders.
             matchingMarkdownId (fold (record_match folders) mds folders ! j)
               = (case find (\<lambda>md. target_index md folders = Some j) (rev mds) of
                    None \<Rightarrow> matchingMarkdownId (folders ! j)
                  | Some md \<Rightarrow> Some (md_id md))"
    by (simp add: nth_fold_record)
  from a b show ?thesis
    unfolding eq by (simp add: length_fold_record)
qed

lemma two_docs_match:
  "prefix_match (two_docs ! 0) (one_folder ! 0)" "prefix_match (two_docs ! 1) (one_folder ! 0)"
  by code_simp+

theorem matching_assigns_first_and_records_last_witness:
  "0 < length two_docs \<and> 0 < length one_folder
   \<and> find (prefix_match (two_docs ! 0)) one_folder = Some (one_folder ! 0)
   \<and> matchingFolderId (fst (matchFilesWithFolders two_docs one_folder) ! 0) = Some ''F1''
   \<and> matchingFolderId (fst (matchFilesWithFolders two_docs one_folder) ! 1) = Some ''F1''
   \<and> matchingMarkdownId (snd (matchFilesWithFolders two_docs one_folder) ! 0) = Some ''D2''"
proof -
  have f0: "find (prefix_match (two_docs ! 0)) one_folder = Some (one_folder ! 0)"
    and f1: "find (prefix_match (two_docs ! 1)) one_folder = Some (one_folder ! 0)"
    using two_docs_match by (simp_all add: one_folder_def)
  have t: "target_index (two_docs ! 0) one_folder = Some 0"
      "target_index (two_docs ! 1) one_folder = Some 0"
    using f0 f1 by (simp_all add: target_index_def) (simp_all add: one_folder_def)
  have l: "length two_docs = 2" "length one_folder = 1"
    by (simp_all add: two_docs_def one_folder_def)
  have r: "find (\<lambda>md. target_index md one_folder = Some 0) (rev two_docs) = Some (two_docs ! 1)"
    using t by (simp add: two_docs_def)
  from matching_assigns_first_and_records_last [of two_docs one_folder]
  have a: "\<forall>i<length two_docs.
             matchingFolderId (fst (matchFilesWithFolders two_docs one_folder) ! i)
               = (case find (prefix_match (two_docs ! i)) one_folder of
                    None \<Rightarrow> matchingFolderId (two_docs ! i)
                  | Some f \<Rightarrow> Some (fo_id f))"
    and b: "\<forall>j<length one_folder.
             matchingMarkdownId (snd (matchFilesWithFolders two_docs one_folder) ! j)
               = (case find (\<lambda>md. target_index md one_folder = Some j) (rev two_docs) of
                    None \<Rightarrow> matchingMarkdownId (one_folder ! j)
                  | Some md \<Rightarrow> Some (md_id md))"
    by (simp_all add: case_prod_beta)
  have id0: "fo_id (one_folder ! 0) = ''F1''" and id1: "md_id (two_docs ! 1) = ''D2''"
    by (simp_all add: one_folder_def mk_folder_def two_docs_def mk_doc_def)
  have i0: "0 < length two_docs" and i1: "1 < length two_docs" and j0: "0 < length one_folder"
    using l by simp_all
  from a [rule_format, OF i0] f0 id0
  have "matchingFolderId (fst (matchFilesWithFolders two_docs one_folder) ! 0) = Some ''F1''"
    by simp
  moreover from a [rule_format, OF i1] f1 id0
  have "matchingFolderId (fst (matchFilesWithFolders two_docs one_folder) ! 1) = Some ''F1''"
    by simp
  moreover from b [rule_format, OF j0] r id1
  have "matchingMarkdownId (snd (matchFilesWithFolders two_docs one_folder) ! 0) = Some ''D2''"
    by simp
  ultimately show ?thesis using l f0 by simp
qed

text \<open>
  C7 as stated fails: two markdown files with the same prefix are both assigned the
  one folder, which records the second.
\<close>

theorem matching_not_one_to_one_counterexample:
  "(let (mds', folders') = matchFilesWithFolders two_docs one_folder
    in (map md_id mds', map matchingFolderId mds', map matchingMarkdownId folders'))
   = ([''D1'', ''D2''], [Some ''F1'', Some ''F1''], [Some ''D2''])"
  by code_simp


section \<open>The status and the match key on the inputs where code and specification part\<close>

text \<open>
  C1. The code looks for a result folder whose name is contained in the name of the
  markdown file, not for one whose name equals the name of the matching folder. For
  the document \<^verbatim>\<open>RPT_2024_01_summary.md\<close>, matched with the folder
  \<^verbatim>\<open>rpt_2024_01_data\<close> of four files, and a result folder of that same name that
  holds all four, the code gives the status \<open>Pending\<close> where the specification gives
  \<open>Completed\<close>; with the result folder named \<^verbatim>\<open>RPT_2024_01\<close>, which is not the
  name of the folder, the code gives \<open>Completed\<close> where the specification gives
  \<open>Pending\<close>.
\<close>

theorem status_ignores_container_name:
  "(let (mds, folders) = matchFilesWithFolders one_doc one_folder;
        rs = results_named ''rpt_2024_01_data''
    in (map matchingFolderId mds,
        map md_status (fst (determineFileStatuses mds folders rs)),
        map (\<lambda>md. spec_status md folders rs) mds))
   = ([Some ''F1''], [Some Pending], [Completed])
   \<and> (let (mds, folders) = matchFilesWithFolders one_doc one_folder;
        rs = results_named ''RPT_2024_01''
    in (map md_status (fst (determineFileStatuses mds folders rs)),
        map (\<lambda>md. spec_status md folders rs) mds))
   = ([Some Completed], [Pending])"
  by code_simp

text \<open>
  C2. The code removes the first \<^verbatim>\<open>.md\<close> of the name, wherever it stands, and not
  the extension. For the document \<^verbatim>\<open>notes.md_2024_01_v2.md\<close> the key of the code is
  \<^verbatim>\<open>notes_2024_01\<close> where stripping the extension gives \<^verbatim>\<open>notes.md_2024_01\<close>, and
  the code matches the document with the folder \<^verbatim>\<open>notes_2024_01\<close>. On the
  specification's example the code does what the claim says: the key of
  \<^verbatim>\<open>RPT_2024_01_summary.md\<close> is \<^verbatim>\<open>RPT_2024_01\<close> and the document is matched with
  the folder \<^verbatim>\<open>rpt_2024_01_data\<close>.
\<close>

theorem match_key_removes_first_md:
  "mdPrefix ''notes.md_2024_01_v2.md'' = ''notes_2024_01''
   \<and> spec_match_key ''notes.md_2024_01_v2.md'' = ''notes.md_2024_01''
   \<and> folderPrefix ''notes_2024_01'' = ''notes_2024_01''
   \<and> map matchingFolderId (fst (matchFilesWithFolders dotted_doc notes_folder)) = [Some ''F1'']
   \<and> mdPrefix ''RPT_2024_01_summary.md'' = ''RPT_2024_01''
   \<and> map matchingFolderId (fst (matchFilesWithFolders one_doc one_folder)) = [Some ''F1'']"
  by code_simp

end
